theory Spec2Isabelle
  imports Main "HOL-Library.Word"
begin

section \<open>The kodo client: a wrapper around an object-storage SDK\<close>

text \<open>
  The package wraps the storage SDK (\<^verbatim>\<open>github.com/qiniu/api.v7\<close>). The SDK is not part
  of the package: its operations are parameters of the model, collected in the record
  \<open>sdk\<close>. Operations of the SDK that talk to the backend take the state of the world
  (\<open>'w\<close>: the backend, the network) and return it updated; the pure ones do not.
\<close>

subsection \<open>Data\<close>

text \<open>
  Go's \<^verbatim>\<open>error\<close> values: the package's own \<^verbatim>\<open>ErrMissFops\<close>
  (\<^verbatim>\<open>errors.New("persistent operations should not be empty")\<close>) and whatever the SDK
  returns, kept as its message.
\<close>

datatype error = ErrMissFops | SdkError string

fun Error :: "error \<Rightarrow> string" where
  "Error ErrMissFops = ''persistent operations should not be empty''"
| "Error (SdkError msg) = msg"

text \<open>Run-time panics: a failed type assertion, a write to a nil map.\<close>

datatype panic = TypeAssertion | NilMapAssignment

text \<open>
  A Go map is a reference. \<^verbatim>\<open>map[string]string\<close> values are \<open>NilMap\<close> or the address
  of a table in the store; two variables holding the same address share the table.
\<close>

datatype gomap = NilMap | MapRef nat

record store =
  cells :: "nat \<Rightarrow> (string \<rightharpoonup> string)"
  next_addr :: nat

text \<open>\<^verbatim>\<open>make(map[string]string)\<close>: a fresh, empty table.\<close>

definition make_map :: "store \<Rightarrow> gomap \<times> store" where
  "make_map h =
     (MapRef (next_addr h),
      h\<lparr>cells := (cells h)(next_addr h := Map.empty), next_addr := Suc (next_addr h)\<rparr>)"

text \<open>\<^verbatim>\<open>m[k] = v\<close>: panics on a nil map, updates the shared table otherwise.\<close>

definition map_assign :: "store \<Rightarrow> gomap \<Rightarrow> string \<Rightarrow> string \<Rightarrow> panic + store" where
  "map_assign h m k v =
     (case m of
        NilMap \<Rightarrow> Inl NilMapAssignment
      | MapRef a \<Rightarrow> Inr (h\<lparr>cells := (cells h)(a := (cells h a)(k \<mapsto> v))\<rparr>))"

text \<open>
  The values of \<^verbatim>\<open>args ...interface{}\<close>: each carries its dynamic type. \<open>ArgNil\<close> is the
  untyped nil interface value.
\<close>

datatype arg = ArgString string | ArgBool bool | ArgInt int | ArgMap gomap | ArgNil

text \<open>The type assertions \<^verbatim>\<open>x.(string)\<close>, \<^verbatim>\<open>x.(int)\<close>, \<^verbatim>\<open>x.(map[string]string)\<close>.\<close>

fun as_string :: "arg \<Rightarrow> panic + string" where
  "as_string (ArgString s) = Inr s"
| "as_string _ = Inl TypeAssertion"

fun as_int :: "arg \<Rightarrow> panic + int" where
  "as_int (ArgInt i) = Inr i"
| "as_int _ = Inl TypeAssertion"

fun as_map :: "arg \<Rightarrow> panic + gomap" where
  "as_map (ArgMap m) = Inr m"
| "as_map _ = Inl TypeAssertion"

record State =
  Key :: string
  Hash :: string
  FSize :: string
  Bucket :: string
  Name :: string

text \<open>\<^verbatim>\<open>State{}\<close>, the zero value.\<close>

definition State_zero :: State where
  "State_zero = \<lparr>Key = '''', Hash = '''', FSize = '''', Bucket = '''', Name = ''''\<rparr>"

text \<open>\<^verbatim>\<open>qbox.Mac\<close>: the credentials the SDK signs with.\<close>

record Mac =
  AccessKey :: string
  SecretKey :: string

text \<open>
  \<^verbatim>\<open>Client\<close>. The fields \<^verbatim>\<open>config\<close>, \<^verbatim>\<open>bktManager\<close>, \<^verbatim>\<open>fopManager\<close> and
  \<^verbatim>\<open>uploader\<close> are handles into the SDK; their operations are the fields of \<open>sdk\<close>.
\<close>

record Client =
  accessKey :: string
  secretKey :: string
  bucket :: string
  domain :: string
  mac :: Mac

text \<open>The fields of \<^verbatim>\<open>storage.PutPolicy\<close> that \<^verbatim>\<open>Writer\<close> sets.\<close>

record PutPolicy =
  Scope :: string
  CallbackURL :: string
  ReturnBody :: string
  PersistentOps :: string
  CallbackBody :: string
  PersistentPipeline :: string

record PutExtra =
  Params :: gomap

text \<open>\<^verbatim>\<open>storage.ListItem\<close>; the package reads its \<^verbatim>\<open>Key\<close> only.\<close>

record ListItem =
  Key :: string

text \<open>The five results of \<^verbatim>\<open>BucketManager.ListFiles\<close>.\<close>

record ListFilesRet =
  entries :: "ListItem list"
  commonPrefixes :: "string list"
  nextMarker :: string
  hasNext :: bool
  err :: "error option"

type_synonym Reader = "8 word list"

text \<open>
  The SDK. \<open>UploadToken\<close> is \<^verbatim>\<open>PutPolicy.UploadToken(mac)\<close>; \<open>Put\<close> is
  \<^verbatim>\<open>FormUploader.Put(ctx, ret, token, key, reader, size, extra)\<close>, which reads the
  tables of the store through \<^verbatim>\<open>extra\<close>, fills \<^verbatim>\<open>ret\<close> and returns an error or nil;
  \<open>ListFiles\<close> is \<^verbatim>\<open>BucketManager.ListFiles(bucket, prefix, delimiter, marker, limit)\<close>;
  \<open>Stat\<close> is \<^verbatim>\<open>BucketManager.Stat(bucket, key)\<close>, of which the package reads the error
  only; \<open>MakePrivateURL\<close> is \<^verbatim>\<open>storage.MakePrivateURL(mac, domain, key, deadline)\<close>.
\<close>

record 'w sdk =
  UploadToken :: "PutPolicy \<Rightarrow> Mac \<Rightarrow> string"
  Put :: "'w \<Rightarrow> store \<Rightarrow> State \<Rightarrow> string \<Rightarrow> string \<Rightarrow> Reader \<Rightarrow> int \<Rightarrow> PutExtra
          \<Rightarrow> (State \<times> error option) \<times> 'w"
  ListFiles :: "'w \<Rightarrow> string \<Rightarrow> string \<Rightarrow> string \<Rightarrow> string \<Rightarrow> int \<Rightarrow> ListFilesRet \<times> 'w"
  Stat :: "'w \<Rightarrow> string \<Rightarrow> string \<Rightarrow> error option \<times> 'w"
  MakePrivateURL :: "Mac \<Rightarrow> string \<Rightarrow> string \<Rightarrow> int \<Rightarrow> string"

subsection \<open>Writer and Push\<close>

definition defaultRetBody :: string where
  "defaultRetBody =
     ''{\"key\":\"$(key)\",\"hash\":\"$(etag)\",\"fsize\":\"$(fsize)\",\"bucket\":\"$(bucket)\",\"name\":\"$(x:name)\"}''"

text \<open>The local variables of \<^verbatim>\<open>Writer\<close> that the \<^verbatim>\<open>switch\<close> assigns.\<close>

record Writer_vars =
  pipName :: string
  fops :: string
  retBody :: string
  extraParams :: gomap
  cbURL :: string
  cbBody :: string

text \<open>
  The cases of \<^verbatim>\<open>switch len(args)\<close> in \<^verbatim>\<open>Writer\<close>, last first: each of the cases 5, 4
  and 3 falls through to the next. \<open>args ! i\<close> is read under \<open>length args\<close> \<open>> i\<close> only.
\<close>

definition Writer_case2 :: "arg list \<Rightarrow> Writer_vars \<Rightarrow> panic + Writer_vars" where
  "Writer_case2 args v =
     (case as_string (args ! 0) of
        Inl p \<Rightarrow> Inl p
      | Inr s0 \<Rightarrow>
          (case as_string (args ! 1) of
             Inl p \<Rightarrow> Inl p
           | Inr s1 \<Rightarrow> Inr (v\<lparr>pipName := s0, fops := s1\<rparr>)))"

definition Writer_case3 :: "arg list \<Rightarrow> Writer_vars \<Rightarrow> panic + Writer_vars" where
  "Writer_case3 args v =
     (case as_map (args ! 2) of
        Inl p \<Rightarrow> Inl p
      | Inr m \<Rightarrow> Writer_case2 args (v\<lparr>extraParams := m\<rparr>))"

definition Writer_case4 :: "arg list \<Rightarrow> Writer_vars \<Rightarrow> panic + Writer_vars" where
  "Writer_case4 args v =
     (case as_string (args ! 3) of
        Inl p \<Rightarrow> Inl p
      | Inr s \<Rightarrow> Writer_case3 args (v\<lparr>retBody := s, cbBody := s\<rparr>))"

definition Writer_case5 :: "arg list \<Rightarrow> Writer_vars \<Rightarrow> panic + Writer_vars" where
  "Writer_case5 args v =
     (case as_string (args ! 4) of
        Inl p \<Rightarrow> Inl p
      | Inr s \<Rightarrow> Writer_case4 args (v\<lparr>cbURL := s\<rparr>))"

text \<open>
  What \<^verbatim>\<open>Writer\<close> has done when it reaches the uploader, or why it does not reach it:
  a panic, the early \<^verbatim>\<open>return nil, ErrMissFops\<close>, or the policy and the extra parameters
  of the upload. The store is the one these steps leave behind.
\<close>

datatype Writer_setup =
  Panics panic store
| Returns "State option" "error option" store
| Uploads PutPolicy gomap store

text \<open>
  The \<^verbatim>\<open>switch\<close> itself. No case is written for the lengths 0 and 6 or more, where the
  declared values stay; the case 1 returns from \<^verbatim>\<open>Writer\<close> and is \<open>None\<close> here.
\<close>

definition Writer_switch :: "arg list \<Rightarrow> Writer_vars \<Rightarrow> (panic + Writer_vars) option" where
  "Writer_switch args v =
     (if length args = 1 then None
      else if length args = 5 then Some (Writer_case5 args v)
      else if length args = 4 then Some (Writer_case4 args v)
      else if length args = 3 then Some (Writer_case3 args v)
      else if length args = 2 then Some (Writer_case2 args v)
      else Some (Inr v))"

text \<open>The \<^verbatim>\<open>PutPolicy\<close> literal.\<close>

definition Writer_policy :: "string \<Rightarrow> Writer_vars \<Rightarrow> PutPolicy" where
  "Writer_policy scope v =
     \<lparr>Scope = scope, CallbackURL = cbURL v, ReturnBody = retBody v, PersistentOps = fops v,
      CallbackBody = cbBody v, PersistentPipeline = pipName v\<rparr>"

text \<open>
  \<^verbatim>\<open>Writer\<close> up to the construction of the policy: the declarations, the scope, the
  \<^verbatim>\<open>switch\<close>, \<^verbatim>\<open>extraParams["x:name"] = path\<close> and the policy.
  \<^verbatim>\<open>fmt.Sprintf("%s:%s", client.bucket, path)\<close> joins the two strings with a colon.
\<close>

definition Writer_prepare :: "Client \<Rightarrow> string \<Rightarrow> bool \<Rightarrow> arg list \<Rightarrow> store \<Rightarrow> Writer_setup" where
  "Writer_prepare client path overWriter args h =
     (case make_map h of (m0, h1) \<Rightarrow>
        (let v0 = \<lparr>pipName = [], fops = [], retBody = defaultRetBody, extraParams = m0,
                   cbURL = [], cbBody = []\<rparr>;
             scope = (if overWriter then bucket client @ '':'' @ path else bucket client)
         in case Writer_switch args v0 of
              None \<Rightarrow> Returns None (Some ErrMissFops) h1
            | Some (Inl p) \<Rightarrow> Panics p h1
            | Some (Inr v) \<Rightarrow>
                (case map_assign h1 (extraParams v) ''x:name'' path of
                   Inl p \<Rightarrow> Panics p h1
                 | Inr h2 \<Rightarrow> Uploads (Writer_policy scope v) (extraParams v) h2)))"

definition extra :: "Client \<Rightarrow> gomap \<Rightarrow> PutExtra" where
  "extra client p = \<lparr>Params = p\<rparr>"

text \<open>
  The rest of \<^verbatim>\<open>Writer\<close>: \<^verbatim>\<open>ret := State{}\<close>, the call of the uploader with the token
  of the policy, and \<^verbatim>\<open>return &ret, err\<close>.
\<close>

definition Writer_upload ::
  "'w sdk \<Rightarrow> Client \<Rightarrow> string \<Rightarrow> Reader \<Rightarrow> int \<Rightarrow> PutPolicy \<Rightarrow> gomap \<Rightarrow> store \<Rightarrow> 'w
   \<Rightarrow> (panic + State option \<times> error option) \<times> store \<times> 'w" where
  "Writer_upload sdk client path reader fSize policy params h w =
     (case Put sdk w h State_zero (UploadToken sdk policy (mac client)) path reader fSize
             (extra client params) of
        ((ret, e), w') \<Rightarrow> (Inr (Some ret, e), h, w'))"

definition Writer ::
  "'w sdk \<Rightarrow> Client \<Rightarrow> string \<Rightarrow> Reader \<Rightarrow> int \<Rightarrow> bool \<Rightarrow> arg list \<Rightarrow> store \<times> 'w
   \<Rightarrow> (panic + State option \<times> error option) \<times> store \<times> 'w" where
  "Writer sdk client path reader fSize overWriter args hw =
     (case hw of (h, w) \<Rightarrow>
        (case Writer_prepare client path overWriter args h of
           Panics p h' \<Rightarrow> (Inl p, h', w)
         | Returns st e h' \<Rightarrow> (Inr (st, e), h', w)
         | Uploads policy params h' \<Rightarrow>
             Writer_upload sdk client path reader fSize policy params h' w))"

text \<open>\<^verbatim>\<open>Push\<close>: \<^verbatim>\<open>Writer\<close> on \<^verbatim>\<open>bytes.NewReader(data)\<close> and \<^verbatim>\<open>int64(len(data))\<close>.\<close>

definition Push ::
  "'w sdk \<Rightarrow> Client \<Rightarrow> string \<Rightarrow> 8 word list \<Rightarrow> bool \<Rightarrow> arg list \<Rightarrow> store \<times> 'w
   \<Rightarrow> (panic + State option \<times> error option) \<times> store \<times> 'w" where
  "Push sdk client path data overWriter args hw =
     Writer sdk client path data (int (length data)) overWriter args hw"

subsection \<open>URLFor and KeyURL\<close>









subsection \<open>What a URL carries\<close>



function digits :: "nat \<Rightarrow> string" where
  "digits i =
     (if i < 10 then [''0123456789'' ! i]
      else digits (i div 10) @ [''0123456789'' ! (i mod 10)])"
  by pat_completeness auto
termination
  by (relation "measure id") auto

definition itoa :: "int \<Rightarrow> string" where
  "itoa i = (if i < 0 then CHR ''-'' # digits (nat (- i)) else digits (nat i))"

subsection \<open>KeyList\<close>

text \<open>\<^verbatim>\<open>math.MaxInt64\<close>, the default of \<^verbatim>\<open>n\<close>.\<close>

definition MaxInt64 :: int where
  "MaxInt64 = 9223372036854775807"

text \<open>
  The \<^verbatim>\<open>switch len(args)\<close> of \<^verbatim>\<open>KeyList\<close> on the variables
  \<open>(n, limit, marker, delimiter)\<close>; each of the cases 4, 3 and 2 falls through to the next.
\<close>

type_synonym KeyList_vars = "int \<times> int \<times> string \<times> string"

definition KeyList_case1 :: "arg list \<Rightarrow> KeyList_vars \<Rightarrow> panic + KeyList_vars" where
  "KeyList_case1 args v =
     (case v of (n, limit, marker, delimiter) \<Rightarrow>
        (case as_int (args ! 0) of
           Inl p \<Rightarrow> Inl p
         | Inr i \<Rightarrow> Inr (i, limit, marker, delimiter)))"

definition KeyList_case2 :: "arg list \<Rightarrow> KeyList_vars \<Rightarrow> panic + KeyList_vars" where
  "KeyList_case2 args v =
     (case v of (n, limit, marker, delimiter) \<Rightarrow>
        (case as_int (args ! 1) of
           Inl p \<Rightarrow> Inl p
         | Inr i \<Rightarrow> KeyList_case1 args (n, i, marker, delimiter)))"

definition KeyList_case3 :: "arg list \<Rightarrow> KeyList_vars \<Rightarrow> panic + KeyList_vars" where
  "KeyList_case3 args v =
     (case v of (n, limit, marker, delimiter) \<Rightarrow>
        (case as_string (args ! 2) of
           Inl p \<Rightarrow> Inl p
         | Inr s \<Rightarrow> KeyList_case2 args (n, limit, s, delimiter)))"

definition KeyList_case4 :: "arg list \<Rightarrow> KeyList_vars \<Rightarrow> panic + KeyList_vars" where
  "KeyList_case4 args v =
     (case v of (n, limit, marker, delimiter) \<Rightarrow>
        (case as_string (args ! 3) of
           Inl p \<Rightarrow> Inl p
         | Inr s \<Rightarrow> KeyList_case3 args (n, limit, marker, s)))"

definition KeyList_args :: "arg list \<Rightarrow> panic + KeyList_vars" where
  "KeyList_args args =
     (let v0 = (MaxInt64, 1000, [], [])
      in if length args = 4 then KeyList_case4 args v0
         else if length args = 3 then KeyList_case3 args v0
         else if length args = 2 then KeyList_case2 args v0
         else if length args = 1 then KeyList_case1 args v0
         else Inr v0)"

text \<open>
  The inner loop \<^verbatim>\<open>for _, item := range items\<close>: \<open>Inl keys\<close> when the
  \<^verbatim>\<open>return keys, nextMarker\<close> inside it is taken, \<open>Inr keys\<close> when the range ends.
  \<^verbatim>\<open>len(keys)\<close> is an \<^verbatim>\<open>int\<close> and never reaches its bound.
\<close>

fun KeyList_range :: "ListItem list \<Rightarrow> string list \<Rightarrow> int \<Rightarrow> string list + string list" where
  "KeyList_range [] keys n = Inr keys"
| "KeyList_range (item # items) keys n =
     (let keys' = keys @ [ListItem.Key item]
      in if int (length keys') \<ge> n then Inl keys' else KeyList_range items keys' n)"

text \<open>
  The outer loop \<^verbatim>\<open>for { ... }\<close> on the variables \<open>marker\<close> and \<open>keys\<close>. It ends by
  the \<^verbatim>\<open>return\<close> in the range or by a \<^verbatim>\<open>break\<close> followed by
  \<^verbatim>\<open>return keys, marker\<close>. Nothing bounds the number of rounds: \<open>None\<close> is the call
  that does not return.
\<close>

partial_function (option) KeyList_loop ::
  "'w sdk \<Rightarrow> Client \<Rightarrow> string \<Rightarrow> string \<Rightarrow> int \<Rightarrow> int \<Rightarrow> 'w \<Rightarrow> string \<Rightarrow> string list
   \<Rightarrow> ((string list \<times> string) \<times> 'w) option" where
  "KeyList_loop sdk client prefix delimiter limit n w marker keys =
     (case ListFiles sdk w (bucket client) prefix delimiter marker limit of
        (r, w') \<Rightarrow>
          if err r \<noteq> None then Some ((keys, marker), w')
          else
            (case KeyList_range (entries r) keys n of
               Inl keys' \<Rightarrow> Some ((keys', nextMarker r), w')
             | Inr keys' \<Rightarrow>
                 if hasNext r
                 then KeyList_loop sdk client prefix delimiter limit n w' (nextMarker r) keys'
                 else Some ((keys', marker), w')))"

definition KeyList ::
  "'w sdk \<Rightarrow> Client \<Rightarrow> string \<Rightarrow> arg list \<Rightarrow> 'w
   \<Rightarrow> (panic + (string list \<times> string) \<times> 'w) option" where
  "KeyList sdk client prefix args w =
     (case KeyList_args args of
        Inl p \<Rightarrow> Some (Inl p)
      | Inr (n, limit, marker, delimiter) \<Rightarrow>
          map_option Inr (KeyList_loop sdk client prefix delimiter limit n w marker []))"

subsection \<open>KeyExist\<close>

definition KeyExist :: "'w sdk \<Rightarrow> Client \<Rightarrow> string \<Rightarrow> 'w \<Rightarrow> bool \<times> 'w" where
  "KeyExist sdk client key w =
     (case Stat sdk w (bucket client) key of
        (e, w') \<Rightarrow> if e \<noteq> None then (False, w') else (True, w'))"

subsection \<open>The rounds of the listing loop\<close>

text \<open>
  The variables \<open>(w, marker, keys)\<close> at the head of the outer loop of \<^verbatim>\<open>KeyList\<close> after
  \<open>k\<close> rounds that all went on to the next round: each request succeeded, the range ended
  without the \<^verbatim>\<open>return\<close>, and the backend reported a next page. \<open>None\<close> when one of
  the first \<open>k\<close> rounds left the loop.
\<close>

fun KeyList_after ::
  "'w sdk \<Rightarrow> Client \<Rightarrow> string \<Rightarrow> string \<Rightarrow> int \<Rightarrow> int \<Rightarrow> nat \<Rightarrow> 'w \<times> string \<times> string list
   \<Rightarrow> ('w \<times> string \<times> string list) option" where
  "KeyList_after sdk client prefix delimiter limit n 0 st = Some st"
| "KeyList_after sdk client prefix delimiter limit n (Suc k) (w, marker, keys) =
     (case ListFiles sdk w (bucket client) prefix delimiter marker limit of
        (r, w') \<Rightarrow>
          if err r \<noteq> None then None
          else
            (case KeyList_range (entries r) keys n of
               Inl keys' \<Rightarrow> None
             | Inr keys' \<Rightarrow>
                 if hasNext r
                 then KeyList_after sdk client prefix delimiter limit n k (w', nextMarker r, keys')
                 else None))"

subsection \<open>A backend for the examples\<close>

text \<open>
  A stand-in for the SDK, used to run the operations on concrete inputs. The bucket holds
  the keys \<open>all\<close>, listed in pages of \<open>limit\<close> keys; a marker is the last key of the page
  before, the empty marker the start. The state of the world is the number of requests
  served so far; from request number \<open>ok_calls\<close> on, every request fails with a timeout.
  Its private URLs are the domain, the key and the deadline in decimal, then a token.
\<close>

definition keys_after :: "string list \<Rightarrow> string \<Rightarrow> string list" where
  "keys_after all marker =
     (if marker = [] then all else tl (dropWhile (\<lambda>k. k \<noteq> marker) all))"

definition page_of :: "string list \<Rightarrow> string \<Rightarrow> int \<Rightarrow> ListFilesRet" where
  "page_of all marker limit =
     (let page = take (nat limit) (keys_after all marker);
          more = drop (nat limit) (keys_after all marker)
      in \<lparr>entries = map (\<lambda>k. \<lparr>ListItem.Key = k\<rparr>) page, commonPrefixes = [],
          nextMarker = (if more = [] \<or> page = [] then [] else last page),
          hasNext = (more \<noteq> []), err = None\<rparr>)"

definition timeout_ret :: ListFilesRet where
  "timeout_ret =
     \<lparr>entries = [], commonPrefixes = [], nextMarker = [], hasNext = False,
      err = Some (SdkError ''timeout'')\<rparr>"

definition test_sdk :: "string list \<Rightarrow> nat \<Rightarrow> nat sdk" where
  "test_sdk all ok_calls =
     \<lparr>UploadToken = (\<lambda>policy m. AccessKey m @ '':'' @ Scope policy),
      Put = (\<lambda>w h ret token key reader size ex.
               if w < ok_calls then ((ret\<lparr>State.Key := key\<rparr>, None), Suc w)
               else ((ret, Some (SdkError ''timeout'')), Suc w)),
      ListFiles = (\<lambda>w bkt prefix delimiter marker limit.
               if w < ok_calls then (page_of all marker limit, Suc w)
               else (timeout_ret, Suc w)),
      Stat = (\<lambda>w bkt key.
               if w < ok_calls
               then (if key \<in> set all then None
                     else Some (SdkError ''no such file or directory''), Suc w)
               else (Some (SdkError ''timeout''), Suc w)),
      MakePrivateURL = (\<lambda>m dom key deadline.
               dom @ ''/'' @ key @ ''?e='' @ itoa deadline @ ''&token='' @ AccessKey m)\<rparr>"

definition test_client :: Client where
  "test_client =
     \<lparr>accessKey = ''ak'', secretKey = ''sk'', bucket = ''photos'', domain = ''cdn.example.com'',
      mac = \<lparr>AccessKey = ''ak'', SecretKey = ''sk''\<rparr>\<rparr>"

definition twelve_keys :: "string list" where
  "twelve_keys =
     [''k01'', ''k02'', ''k03'', ''k04'', ''k05'', ''k06'',
      ''k07'', ''k08'', ''k09'', ''k10'', ''k11'', ''k12'']"

definition three_keys :: "string list" where
  "three_keys = [''k01'', ''k02'', ''k03'']"

text \<open>
  A store in which the caller holds one table, at address 0, with its own
  \<^verbatim>\<open>"x:name"\<close> entry.
\<close>

definition test_store :: store where
  "test_store =
     \<lparr>cells = (\<lambda>a. if a = 0 then [''x:name'' \<mapsto> ''zihua'', ''x:password'' \<mapsto> ''123456'']
                   else Map.empty),
      next_addr = 1\<rparr>"

section \<open>Properties\<close>

subsection \<open>The switch of Writer\<close>

lemma as_string_Inr: "as_string x = Inr s \<Longrightarrow> x = ArgString s"
  by (cases x) simp_all

lemma as_map_Inr: "as_map x = Inr m \<Longrightarrow> x = ArgMap m"
  by (cases x) simp_all

lemma Writer_case2_keeps:
  "Writer_case2 args v = Inr v' \<Longrightarrow>
     retBody v' = retBody v \<and> extraParams v' = extraParams v \<and> cbBody v' = cbBody v \<and> cbURL v' = cbURL v"
  by (auto simp: Writer_case2_def split: sum.splits)

lemma Writer_case3_keeps:
  "Writer_case3 args v = Inr v' \<Longrightarrow> retBody v' = retBody v \<and> args ! 2 = ArgMap (extraParams v')"
  by (auto simp: Writer_case3_def split: sum.splits dest!: Writer_case2_keeps as_map_Inr)

lemma Writer_case4_keeps:
  "Writer_case4 args v = Inr v' \<Longrightarrow> args ! 2 = ArgMap (extraParams v')"
  by (auto simp: Writer_case4_def split: sum.splits dest!: Writer_case3_keeps)

lemma Writer_case5_keeps:
  "Writer_case5 args v = Inr v' \<Longrightarrow> args ! 2 = ArgMap (extraParams v')"
  by (auto simp: Writer_case5_def split: sum.splits dest!: Writer_case4_keeps)

lemma Writer_switch_retBody:
  "Writer_switch args v = Some (Inr v') \<Longrightarrow> length args < 4 \<Longrightarrow> retBody v' = retBody v"
  by (auto simp: Writer_switch_def split: if_splits dest: Writer_case2_keeps Writer_case3_keeps)

lemma Writer_switch_extraParams:
  "Writer_switch args v = Some (Inr v') \<Longrightarrow> 3 \<le> length args \<Longrightarrow> length args \<le> 5 \<Longrightarrow>
     args ! 2 = ArgMap (extraParams v')"
  by (auto simp: Writer_switch_def split: if_splits
      dest: Writer_case3_keeps Writer_case4_keeps Writer_case5_keeps)

lemma Writer_prepare_Uploads:
  "Writer_prepare client path overWriter args h = Uploads policy params h' \<Longrightarrow>
     \<exists>v a. Writer_switch args
             \<lparr>pipName = [], fops = [], retBody = defaultRetBody, extraParams = fst (make_map h),
              cbURL = [], cbBody = []\<rparr> = Some (Inr v)
       \<and> policy = Writer_policy (if overWriter then bucket client @ '':'' @ path else bucket client) v
       \<and> params = extraParams v \<and> params = MapRef a
       \<and> h' = (snd (make_map h))\<lparr>cells := (cells (snd (make_map h)))
                  (a := (cells (snd (make_map h)) a)(''x:name'' \<mapsto> path))\<rparr>"
  by (auto simp: Writer_prepare_def map_assign_def Let_def
      split: prod.splits option.splits sum.splits gomap.splits)

lemma Writer_prepare_one:
  "length args = 1 \<Longrightarrow>
     Writer_prepare client path overWriter args h = Returns None (Some ErrMissFops) (snd (make_map h))"
  by (simp add: Writer_prepare_def Writer_switch_def Let_def split: prod.splits)

lemma Writer_reaches_upload:
  "Writer_prepare client path overWriter args h = Uploads policy params h' \<Longrightarrow>
     Writer sdk client path reader fSize overWriter args (h, w) =
       Writer_upload sdk client path reader fSize policy params h' w"
  by (simp add: Writer_def)

lemma Push_reaches_upload:
  "Writer_prepare client path overWriter args h = Uploads policy params h' \<Longrightarrow>
     Push sdk client path data overWriter args (h, w) =
       Writer_upload sdk client path data (int (length data)) policy params h' w"
  by (simp add: Push_def Writer_def)

lemma Writer_upload_store:
  "fst (snd (Writer_upload sdk client path reader fSize policy params h w)) = h"
  by (simp add: Writer_upload_def split: prod.splits)

lemmas Writer_defs = Writer_prepare_def Writer_switch_def Writer_case2_def Writer_case3_def
  Writer_case4_def Writer_case5_def Writer_policy_def make_map_def map_assign_def

subsection \<open>Claims about Writer and Push\<close>

text \<open>
  Claim C1. A call of \<^verbatim>\<open>Writer\<close> or \<^verbatim>\<open>Push\<close> with exactly one optional argument,
  of whatever type, returns a nil \<^verbatim>\<open>State\<close> and \<^verbatim>\<open>ErrMissFops\<close>. The result is the
  same for every SDK and the state of the world is the one the call started in: the
  uploader is not called. The store has gained the table that the declaration of
  \<^verbatim>\<open>extraParams\<close> makes, and nothing else.
\<close>

theorem Writer_one_optional_argument:
  "length args = 1 \<Longrightarrow>
     Writer sdk client path reader fSize overWriter args (h, w) =
       (Inr (None, Some ErrMissFops), snd (make_map h), w) \<and>
     Push sdk client path data overWriter args (h, w) =
       (Inr (None, Some ErrMissFops), snd (make_map h), w)"
  by (simp add: Push_def Writer_def Writer_prepare_one)

theorem Writer_one_optional_argument_witness:
  "length [ArgString ''pipeline''] = 1 \<and>
   Writer (test_sdk twelve_keys 100) test_client ''a.jpg'' [] 0 True [ArgString ''pipeline'']
     (test_store, 0) = (Inr (None, Some ErrMissFops), snd (make_map test_store), 0) \<and>
   Push (test_sdk twelve_keys 100) test_client ''a.jpg'' [] True [ArgString ''pipeline'']
     (test_store, 0) = (Inr (None, Some ErrMissFops), snd (make_map test_store), 0)"
  using Writer_one_optional_argument [of "[ArgString ''pipeline'']" "test_sdk twelve_keys 100"
      test_client "''a.jpg''" "[]" 0 True test_store 0 "[]"]
  by simp

text \<open>
  Claim C7. When \<^verbatim>\<open>Writer\<close> or \<^verbatim>\<open>Push\<close> is called with fewer than 4 optional
  arguments and reaches the uploader, the return body of the policy whose token it
  uploads with is, byte for byte, the default template: the string written out in the
  theorem, which is the constant \<open>defaultRetBody\<close>.
\<close>

theorem Writer_default_return_body:
  assumes "length args < 4"
    and "Writer_prepare client path overWriter args h = Uploads policy params h'"
  shows "ReturnBody policy =
           ''{\"key\":\"$(key)\",\"hash\":\"$(etag)\",\"fsize\":\"$(fsize)\",\"bucket\":\"$(bucket)\",\"name\":\"$(x:name)\"}'' \<and>
         ReturnBody policy = defaultRetBody \<and>
         Writer sdk client path reader fSize overWriter args (h, w) =
           Writer_upload sdk client path reader fSize policy params h' w \<and>
         Push sdk client path data overWriter args (h, w) =
           Writer_upload sdk client path data (int (length data)) policy params h' w"
proof -
  from Writer_prepare_Uploads [OF assms(2)] obtain v where
    sw: "Writer_switch args
           \<lparr>pipName = [], fops = [], retBody = defaultRetBody, extraParams = fst (make_map h),
            cbURL = [], cbBody = []\<rparr> = Some (Inr v)"
    and pol: "policy =
      Writer_policy (if overWriter then bucket client @ '':'' @ path else bucket client) v"
    by blast
  from Writer_switch_retBody [OF sw assms(1)] pol have body: "ReturnBody policy = defaultRetBody"
    by (simp add: Writer_policy_def)
  then have "ReturnBody policy =
           ''{\"key\":\"$(key)\",\"hash\":\"$(etag)\",\"fsize\":\"$(fsize)\",\"bucket\":\"$(bucket)\",\"name\":\"$(x:name)\"}''"
    by (simp only: defaultRetBody_def)
  with body Writer_reaches_upload [OF assms(2), of sdk reader fSize w]
    Push_reaches_upload [OF assms(2), of sdk data w]
  show ?thesis by simp
qed

theorem Writer_default_return_body_witness:
  "\<exists>policy params h'.
     length [ArgString ''pipeline'', ArgString ''avthumb/mp4''] < 4 \<and>
     Writer_prepare test_client ''a.jpg'' False [ArgString ''pipeline'', ArgString ''avthumb/mp4'']
       test_store = Uploads policy params h' \<and>
     ReturnBody policy =
       ''{\"key\":\"$(key)\",\"hash\":\"$(etag)\",\"fsize\":\"$(fsize)\",\"bucket\":\"$(bucket)\",\"name\":\"$(x:name)\"}'' \<and>
     length (ReturnBody policy) = 92 \<and>
     PersistentOps policy = ''avthumb/mp4''"
proof -
  obtain policy params h' where prep:
    "Writer_prepare test_client ''a.jpg'' False [ArgString ''pipeline'', ArgString ''avthumb/mp4'']
       test_store = Uploads policy params h'"
    and ops: "PersistentOps policy = ''avthumb/mp4''"
    by (simp add: Writer_defs Let_def)
  have len: "length [ArgString ''pipeline'', ArgString ''avthumb/mp4''] < 4" by simp
  from Writer_default_return_body [OF len prep, THEN conjunct1]
  have body: "ReturnBody policy =
       ''{\"key\":\"$(key)\",\"hash\":\"$(etag)\",\"fsize\":\"$(fsize)\",\"bucket\":\"$(bucket)\",\"name\":\"$(x:name)\"}''" .
  then have "length (ReturnBody policy) = 92" by simp
  with body prep ops len show ?thesis by blast
qed

text \<open>
  Claim C8. When \<^verbatim>\<open>Writer\<close> or \<^verbatim>\<open>Push\<close> reaches the uploader, the scope of the
  policy is the bucket, a colon and the destination key if the overwrite flag is set, and
  the bucket alone if it is not.
\<close>

theorem Writer_scope:
  assumes "Writer_prepare client path overWriter args h = Uploads policy params h'"
  shows "Scope policy = (if overWriter then bucket client @ '':'' @ path else bucket client) \<and>
         Writer sdk client path reader fSize overWriter args (h, w) =
           Writer_upload sdk client path reader fSize policy params h' w \<and>
         Push sdk client path data overWriter args (h, w) =
           Writer_upload sdk client path data (int (length data)) policy params h' w"
proof -
  from Writer_prepare_Uploads [OF assms] obtain v where
    "policy = Writer_policy (if overWriter then bucket client @ '':'' @ path else bucket client) v"
    by blast
  then have "Scope policy = (if overWriter then bucket client @ '':'' @ path else bucket client)"
    by (simp add: Writer_policy_def)
  with Writer_reaches_upload [OF assms, of sdk reader fSize w]
    Push_reaches_upload [OF assms, of sdk data w]
  show ?thesis by simp
qed

theorem Writer_scope_witness:
  "\<exists>policy params h' policy2 params2 h2.
     Writer_prepare test_client ''a.jpg'' True [] test_store = Uploads policy params h' \<and>
     Scope policy = ''photos:a.jpg'' \<and>
     Writer_prepare test_client ''a.jpg'' False [] test_store = Uploads policy2 params2 h2 \<and>
     Scope policy2 = ''photos''"
proof -
  obtain policy params h' where prep:
    "Writer_prepare test_client ''a.jpg'' True [] test_store = Uploads policy params h'"
    by (simp add: Writer_defs Let_def)
  obtain policy2 params2 h2 where prep2:
    "Writer_prepare test_client ''a.jpg'' False [] test_store = Uploads policy2 params2 h2"
    by (simp add: Writer_defs Let_def)
  from Writer_scope [OF prep, THEN conjunct1] have "Scope policy = ''photos:a.jpg''"
    by (simp add: test_client_def)
  moreover from Writer_scope [OF prep2, THEN conjunct1] have "Scope policy2 = ''photos''"
    by (simp add: test_client_def)
  ultimately show ?thesis using prep prep2 by blast
qed

text \<open>
  Claim C9. When \<^verbatim>\<open>Writer\<close> or \<^verbatim>\<open>Push\<close> reaches the uploader, the extra
  parameters it passes are a table of the store in which \<^verbatim>\<open>"x:name"\<close> is the
  destination key. With 3, 4 or 5 optional arguments that table is the caller's own, the
  third argument: whatever it held under \<^verbatim>\<open>"x:name"\<close> is replaced, and the store that
  the call returns to the caller holds the replaced entry.
\<close>

theorem Writer_injects_x_name:
  assumes "Writer_prepare client path overWriter args h = Uploads policy params h'"
  shows "\<exists>a. params = MapRef a \<and> Params (extra client params) = MapRef a \<and>
           cells h' a ''x:name'' = Some path \<and>
           (3 \<le> length args \<and> length args \<le> 5 \<longrightarrow> args ! 2 = ArgMap (MapRef a)) \<and>
           Writer sdk client path reader fSize overWriter args (h, w) =
             Writer_upload sdk client path reader fSize policy params h' w \<and>
           fst (snd (Writer sdk client path reader fSize overWriter args (h, w))) = h' \<and>
           Push sdk client path data overWriter args (h, w) =
             Writer_upload sdk client path data (int (length data)) policy params h' w \<and>
           fst (snd (Push sdk client path data overWriter args (h, w))) = h'"
proof -
  from Writer_prepare_Uploads [OF assms] obtain v a where
    sw: "Writer_switch args
           \<lparr>pipName = [], fops = [], retBody = defaultRetBody, extraParams = fst (make_map h),
            cbURL = [], cbBody = []\<rparr> = Some (Inr v)"
    and par: "params = extraParams v" "params = MapRef a"
    and h': "h' = (snd (make_map h))\<lparr>cells := (cells (snd (make_map h)))
                  (a := (cells (snd (make_map h)) a)(''x:name'' \<mapsto> path))\<rparr>"
    by blast
  from h' have "cells h' a ''x:name'' = Some path" by simp
  moreover have "3 \<le> length args \<and> length args \<le> 5 \<longrightarrow> args ! 2 = ArgMap (MapRef a)"
    using Writer_switch_extraParams [OF sw] par by auto
  moreover have "Params (extra client params) = MapRef a"
    using par(2) by (simp add: extra_def)
  moreover note Writer_reaches_upload [OF assms, of sdk reader fSize w] par(2)
    Writer_upload_store [of sdk client path reader fSize policy params h' w]
    Push_reaches_upload [OF assms, of sdk data w]
    Writer_upload_store [of sdk client path data "int (length data)" policy params h' w]
  ultimately show ?thesis by simp
qed

theorem Writer_injects_x_name_witness:
  "cells test_store 0 ''x:name'' = Some ''zihua'' \<and>
   (\<exists>policy h'.
      Writer_prepare test_client ''a.jpg'' False
        [ArgString ''pipeline'', ArgString ''avthumb/mp4'', ArgMap (MapRef 0)] test_store =
        Uploads policy (MapRef 0) h' \<and>
      cells h' 0 ''x:name'' = Some ''a.jpg'' \<and>
      fst (snd (Writer (test_sdk twelve_keys 100) test_client ''a.jpg'' [] 0 False
        [ArgString ''pipeline'', ArgString ''avthumb/mp4'', ArgMap (MapRef 0)] (test_store, 0))) = h')"
proof -
  obtain policy h' where prep:
    "Writer_prepare test_client ''a.jpg'' False
        [ArgString ''pipeline'', ArgString ''avthumb/mp4'', ArgMap (MapRef 0)] test_store =
        Uploads policy (MapRef 0) h'"
    by (simp add: Writer_defs Let_def)
  from Writer_injects_x_name [OF prep, of "test_sdk twelve_keys 100" "[]" 0 0 "[]"]
  have "cells h' 0 ''x:name'' = Some ''a.jpg''"
    and "fst (snd (Writer (test_sdk twelve_keys 100) test_client ''a.jpg'' [] 0 False
        [ArgString ''pipeline'', ArgString ''avthumb/mp4'', ArgMap (MapRef 0)] (test_store, 0))) = h'"
    by auto
  moreover have "cells test_store 0 ''x:name'' = Some ''zihua''"
    by (simp add: test_store_def)
  ultimately show ?thesis using prep by blast
qed

subsection \<open>Substrings\<close>

declare digits.simps [simp del]





subsection \<open>Claims about KeyExist, URLFor and KeyURL\<close>

text \<open>
  Claim C5. \<^verbatim>\<open>KeyExist\<close> returns true exactly when the \<^verbatim>\<open>Stat\<close> call of the SDK
  returns no error; whatever the error is, the result is false.
\<close>

theorem KeyExist_is_Stat_ok:
  "KeyExist sdk client key w =
     (fst (Stat sdk w (bucket client) key) = None, snd (Stat sdk w (bucket client) key))"
  by (simp add: KeyExist_def split: prod.splits)



subsection \<open>The loops of KeyList\<close>

lemmas KeyList_args_defs = KeyList_args_def KeyList_case1_def KeyList_case2_def KeyList_case3_def
  KeyList_case4_def MaxInt64_def

lemma KeyList_range_Inr_keys:
  "KeyList_range items keys n = Inr keys' \<Longrightarrow> keys' = keys @ map ListItem.Key items"
proof (induction items arbitrary: keys)
  case Nil
  then show ?case by simp
next
  case (Cons item items)
  from Cons.prems have "KeyList_range items (keys @ [ListItem.Key item]) n = Inr keys'"
    by (simp add: Let_def split: if_splits)
  from Cons.IH [OF this] show ?case by simp
qed


lemma KeyList_range_below:
  "int (length keys) + int (length items) < n \<Longrightarrow>
     KeyList_range items keys n = Inr (keys @ map ListItem.Key items)"
  by (induction items arbitrary: keys) (auto simp: Let_def)


lemma KeyList_range_first:
  "n \<le> int (length keys) + 1 \<Longrightarrow>
     KeyList_range (item # items) keys n = Inl (keys @ [ListItem.Key item])"
  by (simp add: Let_def)



lemma KeyList_loop_after:
  "KeyList_after sdk client prefix delimiter limit n k (w, marker, keys) = Some (w', marker', keys')
     \<Longrightarrow> KeyList_loop sdk client prefix delimiter limit n w marker keys =
         KeyList_loop sdk client prefix delimiter limit n w' marker' keys'"
proof (induction k arbitrary: w marker keys)
  case 0
  then show ?case by simp
next
  case (Suc k)
  obtain r w1 where lf: "ListFiles sdk w (bucket client) prefix delimiter marker limit = (r, w1)"
    by (cases "ListFiles sdk w (bucket client) prefix delimiter marker limit")
  from Suc.prems lf have ok: "err r = None" by (auto split: if_splits)
  from Suc.prems lf ok obtain keys1 where
    rg: "KeyList_range (entries r) keys n = Inr keys1" and more: "hasNext r" and
    rest: "KeyList_after sdk client prefix delimiter limit n k (w1, nextMarker r, keys1) =
             Some (w', marker', keys')"
    by (auto split: if_splits sum.splits)
  have "KeyList_loop sdk client prefix delimiter limit n w marker keys =
          KeyList_loop sdk client prefix delimiter limit n w1 (nextMarker r) keys1"
    by (subst KeyList_loop.simps) (simp add: lf ok rg more)
  with Suc.IH [OF rest] show ?case by simp
qed

lemma KeyList_loop_error:
  "ListFiles sdk w (bucket client) prefix delimiter marker limit = (r, w') \<Longrightarrow> err r \<noteq> None \<Longrightarrow>
     KeyList_loop sdk client prefix delimiter limit n w marker keys = Some ((keys, marker), w')"
  by (subst KeyList_loop.simps) simp

lemma KeyList_loop_return:
  "ListFiles sdk w (bucket client) prefix delimiter marker limit = (r, w') \<Longrightarrow> err r = None \<Longrightarrow>
   KeyList_range (entries r) keys n = Inl keys' \<Longrightarrow>
     KeyList_loop sdk client prefix delimiter limit n w marker keys = Some ((keys', nextMarker r), w')"
  by (subst KeyList_loop.simps) simp

lemma KeyList_loop_last_page:
  "ListFiles sdk w (bucket client) prefix delimiter marker limit = (r, w') \<Longrightarrow> err r = None \<Longrightarrow>
   KeyList_range (entries r) keys n = Inr keys' \<Longrightarrow> \<not> hasNext r \<Longrightarrow>
     KeyList_loop sdk client prefix delimiter limit n w marker keys = Some ((keys', marker), w')"
  by (subst KeyList_loop.simps) simp

lemma KeyList_from_loop:
  "KeyList_args args = Inr (n, limit, marker, delimiter) \<Longrightarrow>
   KeyList_loop sdk client prefix delimiter limit n w marker [] = Some res \<Longrightarrow>
     KeyList sdk client prefix args w = Some (Inr res)"
  by (simp add: KeyList_def)

subsection \<open>The example backend, page by page\<close>

lemma test_ListFiles:
  "ListFiles (test_sdk all ok_calls) w bkt prefix delimiter marker limit =
     (if w < ok_calls then (page_of all marker limit, Suc w) else (timeout_ret, Suc w))"
  by (simp add: test_sdk_def)

lemmas page_defs = page_of_def keys_after_def twelve_keys_def three_keys_def Let_def







lemma page_start_3:
  "page_of twelve_keys [] 3 =
     \<lparr>entries = [\<lparr>ListItem.Key = ''k01''\<rparr>, \<lparr>ListItem.Key = ''k02''\<rparr>, \<lparr>ListItem.Key = ''k03''\<rparr>],
      commonPrefixes = [], nextMarker = ''k03'', hasNext = True, err = None\<rparr>"
  by (simp add: page_defs)

lemma three_start_2:
  "page_of three_keys [] 2 =
     \<lparr>entries = [\<lparr>ListItem.Key = ''k01''\<rparr>, \<lparr>ListItem.Key = ''k02''\<rparr>], commonPrefixes = [],
      nextMarker = ''k02'', hasNext = True, err = None\<rparr>"
  by (simp add: page_defs)

lemma three_k02_2:
  "page_of three_keys ''k02'' 2 =
     \<lparr>entries = [\<lparr>ListItem.Key = ''k03''\<rparr>], commonPrefixes = [],
      nextMarker = [], hasNext = False, err = None\<rparr>"
  by (simp add: page_defs)

subsection \<open>Claims about KeyList\<close>




text \<open>
  Claim C3. Suppose that, after any number \<open>k\<close> of rounds that went on, the page request
  fails. Then \<^verbatim>\<open>KeyList\<close> returns the keys of the rounds before and the marker that the
  failing request was made with; the error is not part of the result.
\<close>

theorem KeyList_error_truncates:
  assumes "KeyList_args args = Inr (n, limit, marker0, delimiter)"
    and "KeyList_after sdk client prefix delimiter limit n k (w, marker0, []) =
           Some (w1, marker1, keys1)"
    and "ListFiles sdk w1 (bucket client) prefix delimiter marker1 limit = (r, w2)"
    and "err r \<noteq> None"
  shows "KeyList sdk client prefix args w = Some (Inr ((keys1, marker1), w2))"
proof -
  have "KeyList_loop sdk client prefix delimiter limit n w marker0 [] = Some ((keys1, marker1), w2)"
    using KeyList_loop_after [OF assms(2)] KeyList_loop_error [OF assms(3) assms(4)] by simp
  from KeyList_from_loop [OF assms(1) this] show ?thesis .
qed

theorem KeyList_error_truncates_witness:
  "KeyList_args [ArgInt 100, ArgInt 3] = Inr (100, 3, [], []) \<and>
   KeyList_after (test_sdk twelve_keys 1) test_client [] [] 3 100 (Suc 0) (0, [], []) =
     Some (1, ''k03'', [''k01'', ''k02'', ''k03'']) \<and>
   ListFiles (test_sdk twelve_keys 1) 1 (bucket test_client) [] [] ''k03'' 3 = (timeout_ret, 2) \<and>
   err timeout_ret = Some (SdkError ''timeout'') \<and>
   KeyList (test_sdk twelve_keys 1) test_client [] [ArgInt 100, ArgInt 3] 0 =
     Some (Inr (([''k01'', ''k02'', ''k03''], ''k03''), 2))"
proof -
  have a: "KeyList_args [ArgInt 100, ArgInt 3] = Inr (100, 3, [], [])"
    by (simp add: KeyList_args_defs)
  have k: "KeyList_after (test_sdk twelve_keys 1) test_client [] [] 3 100 (Suc 0) (0, [], []) =
     Some (1, ''k03'', [''k01'', ''k02'', ''k03''])"
    by (simp add: test_ListFiles page_start_3)
  have l: "ListFiles (test_sdk twelve_keys 1) 1 (bucket test_client) [] [] ''k03'' 3 = (timeout_ret, 2)"
    by (simp add: test_ListFiles)
  have e: "err timeout_ret = Some (SdkError ''timeout'')" "err timeout_ret \<noteq> None"
    by (simp_all add: timeout_ret_def)
  from KeyList_error_truncates [OF a k l e(2)] a k l e(1) show ?thesis
    by simp
qed

text \<open>
  Claim C4. The claim is that a listing which runs to exhaustion returns the empty
  marker. \<^verbatim>\<open>KeyList\<close> returns the marker of its last request: on a backend of 3 keys
  listed in pages of 2 that is the marker of the second request, which is not empty, and
  a listing resumed from it gets the last page and the same marker again. When the
  maximum is reached on the last key, the \<^verbatim>\<open>return\<close> in the range gives the marker that
  the backend returned with the last page, which is empty.
\<close>

theorem KeyList_exhausted_stale_marker:
  "KeyList (test_sdk three_keys 100) test_client [] [ArgInt 100, ArgInt 2] 0 =
     Some (Inr (([''k01'', ''k02'', ''k03''], ''k02''), 2)) \<and>
   ''k02'' \<noteq> [] \<and>
   KeyList (test_sdk three_keys 100) test_client [] [ArgInt 100, ArgInt 2, ArgString ''k02''] 2 =
     Some (Inr (([''k03''], ''k02''), 3)) \<and>
   KeyList (test_sdk three_keys 100) test_client [] [ArgInt 3, ArgInt 2] 0 =
     Some (Inr (([''k01'', ''k02'', ''k03''], []), 2))"
proof -
  have a: "KeyList_args [ArgInt 100, ArgInt 2] = Inr (100, 2, [], [])"
    by (simp add: KeyList_args_defs)
  have k: "KeyList_after (test_sdk three_keys 100) test_client [] [] 2 100 (Suc 0)
      (0, [], []) = Some (1, ''k02'', [''k01'', ''k02''])"
    by (simp add: test_ListFiles three_start_2)
  have l: "ListFiles (test_sdk three_keys 100) 1 (bucket test_client) [] [] ''k02'' 2 =
     (page_of three_keys ''k02'' 2, 2)"
    by (simp add: test_ListFiles)
  have p: "err (page_of three_keys ''k02'' 2) = None"
    "\<not> hasNext (page_of three_keys ''k02'' 2)"
    "KeyList_range (entries (page_of three_keys ''k02'' 2)) [''k01'', ''k02''] 100 =
       Inr [''k01'', ''k02'', ''k03'']"
    by (simp_all add: three_k02_2)
  from KeyList_from_loop [OF a] KeyList_loop_after [OF k]
    KeyList_loop_last_page [OF l p(1) p(3) p(2)]
  have first: "KeyList (test_sdk three_keys 100) test_client [] [ArgInt 100, ArgInt 2] 0 =
     Some (Inr (([''k01'', ''k02'', ''k03''], ''k02''), 2))"
    by simp
  have ar: "KeyList_args [ArgInt 100, ArgInt 2, ArgString ''k02''] = Inr (100, 2, ''k02'', [])"
    by (simp add: KeyList_args_defs)
  have lr: "ListFiles (test_sdk three_keys 100) 2 (bucket test_client) [] [] ''k02'' 2 =
     (page_of three_keys ''k02'' 2, 3)"
    by (simp add: test_ListFiles)
  have pr: "KeyList_range (entries (page_of three_keys ''k02'' 2)) [] 100 = Inr [''k03'']"
    by (simp add: three_k02_2)
  from KeyList_from_loop [OF ar KeyList_loop_last_page [OF lr p(1) pr p(2)]]
  have again: "KeyList (test_sdk three_keys 100) test_client []
      [ArgInt 100, ArgInt 2, ArgString ''k02''] 2 = Some (Inr (([''k03''], ''k02''), 3))" .
  have a3: "KeyList_args [ArgInt 3, ArgInt 2] = Inr (3, 2, [], [])"
    by (simp add: KeyList_args_defs)
  have k3: "KeyList_after (test_sdk three_keys 100) test_client [] [] 2 3 (Suc 0)
      (0, [], []) = Some (1, ''k02'', [''k01'', ''k02''])"
    by (simp add: test_ListFiles three_start_2)
  have p3: "KeyList_range (entries (page_of three_keys ''k02'' 2)) [''k01'', ''k02''] 3 =
       Inl [''k01'', ''k02'', ''k03'']"
    "nextMarker (page_of three_keys ''k02'' 2) = []"
    by (simp_all add: three_k02_2)
  from KeyList_from_loop [OF a3] KeyList_loop_after [OF k3]
    KeyList_loop_return [OF l p(1) p3(1)] p3(2)
  have full: "KeyList (test_sdk three_keys 100) test_client [] [ArgInt 3, ArgInt 2] 0 =
     Some (Inr (([''k01'', ''k02'', ''k03''], []), 2))"
    by simp
  from first again full show ?thesis by simp
qed

text \<open>
  Claim C10. With a maximum \<open>n\<close> of zero or less, if the first page request succeeds and
  the page has a key, \<^verbatim>\<open>KeyList\<close> returns the first key of that page, alone, with the
  next-page marker of the page: the listing is not empty.
\<close>

theorem KeyList_nonpositive_maximum:
  assumes "KeyList_args args = Inr (n, limit, marker0, delimiter)"
    and "n \<le> 0"
    and "ListFiles sdk w (bucket client) prefix delimiter marker0 limit = (r, w1)"
    and "err r = None"
    and "entries r = item # items"
  shows "KeyList sdk client prefix args w = Some (Inr (([ListItem.Key item], nextMarker r), w1))"
proof -
  from assms(2) have "n \<le> int (length ([]::string list)) + 1" by simp
  from KeyList_range_first [OF this, of item items] assms(5)
  have "KeyList_range (entries r) [] n = Inl [ListItem.Key item]" by simp
  from KeyList_loop_return [OF assms(3) assms(4) this]
  have "KeyList_loop sdk client prefix delimiter limit n w marker0 [] =
          Some (([ListItem.Key item], nextMarker r), w1)" .
  from KeyList_from_loop [OF assms(1) this] show ?thesis .
qed

theorem KeyList_nonpositive_maximum_witness:
  "KeyList_args [ArgInt (- 1), ArgInt 3] = Inr (- 1, 3, [], []) \<and>
   ListFiles (test_sdk twelve_keys 100) 0 (bucket test_client) [] [] [] 3 =
     (page_of twelve_keys [] 3, 1) \<and>
   map ListItem.Key (entries (page_of twelve_keys [] 3)) = [''k01'', ''k02'', ''k03''] \<and>
   KeyList (test_sdk twelve_keys 100) test_client [] [ArgInt (- 1), ArgInt 3] 0 =
     Some (Inr (([''k01''], ''k03''), 1))"
proof -
  have a: "KeyList_args [ArgInt (- 1), ArgInt 3] = Inr (- 1, 3, [], [])"
    by (simp add: KeyList_args_defs)
  have n: "(- 1::int) \<le> 0" by simp
  have l: "ListFiles (test_sdk twelve_keys 100) 0 (bucket test_client) [] [] [] 3 =
     (page_of twelve_keys [] 3, 1)"
    by (simp add: test_ListFiles)
  have p: "err (page_of twelve_keys [] 3) = None"
    "entries (page_of twelve_keys [] 3) =
       \<lparr>ListItem.Key = ''k01''\<rparr> # [\<lparr>ListItem.Key = ''k02''\<rparr>, \<lparr>ListItem.Key = ''k03''\<rparr>]"
    "nextMarker (page_of twelve_keys [] 3) = ''k03''"
    by (simp_all add: page_start_3)
  from KeyList_nonpositive_maximum [OF a n l p(1) p(2)] a l p show ?thesis
    by simp
qed


end
